theory Spec2Isabelle
  imports Complex_Main "HOL-Library.Sublist" "HOL-Library.Multiset"
begin

section \<open>Values of the JavaScript run time\<close>

text \<open>
  The handlers of \<^verbatim>\<open>src/app/server.js\<close> read their arguments from a parsed JSON
  body, so an argument can be any JSON value, or \<^verbatim>\<open>undefined\<close> when the key is
  absent. Numbers are IEEE doubles in the source; every double that JSON can carry is a
  real number, and the handlers only test numbers for being zero, compare them and
  subtract them, so they are modelled as reals.
\<close>

datatype json =
    JUndefined
  | JNull
  | JBool bool
  | JNum real
  | JStr string
  | JArr "json list"
  | JObj "(string \<times> json) list"

text \<open>The truthiness that \<^verbatim>\<open>!x\<close> and \<^verbatim>\<open>x || y\<close> test.\<close>

fun truthy :: "json \<Rightarrow> bool" where
  "truthy JUndefined = False"
| "truthy JNull = False"
| "truthy (JBool b) = b"
| "truthy (JNum x) = (x \<noteq> 0)"
| "truthy (JStr s) = (s \<noteq> [])"
| "truthy (JArr xs) = True"
| "truthy (JObj kvs) = True"

fun is_string :: "json \<Rightarrow> bool" where
  "is_string (JStr s) = True"
| "is_string v = False"

text \<open>
  What a \<^verbatim>\<open>try\<close> block can throw: a \<^verbatim>\<open>TypeError\<close> from calling a method
  that a value does not have, and the rejection of \<^verbatim>\<open>fetch\<close> or of
  \<^verbatim>\<open>response.text()\<close>, which carries a message. No handler reads the message of
  a \<^verbatim>\<open>TypeError\<close>, so its text stands for whatever the engine words it.
\<close>

datatype js_error = TypeError | TransportError string

fun message :: "js_error \<Rightarrow> string" where
  "message TypeError = ''TypeError''"
| "message (TransportError m) = m"

text \<open>What a handler sends: the HTTP status and the JSON body.\<close>

datatype 'a response =
    Status200 'a
  | Status201 'a
  | Status400 string
  | Status500 string

fun status_code :: "'a response \<Rightarrow> nat" where
  "status_code (Status200 b) = 200"
| "status_code (Status201 b) = 201"
| "status_code (Status400 e) = 400"
| "status_code (Status500 e) = 500"

subsection \<open>Strings\<close>

text \<open>
  A string is the list of its characters. The characters with codes below 128 are
  the ASCII characters; how a string represents any other character is left open, and
  nothing below depends on it.
\<close>

fun ascii_char :: "char \<Rightarrow> bool" where
  "ascii_char (Char b0 b1 b2 b3 b4 b5 b6 b7) = (\<not> b7)"

definition ascii_text :: "string \<Rightarrow> bool" where
  "ascii_text s = list_all ascii_char s"

text \<open>
  \<^verbatim>\<open>String.prototype.toLowerCase\<close> follows the Unicode case conversion of the
  engine. On a string of ASCII characters it replaces the letters \<^verbatim>\<open>A\<close> to \<^verbatim>\<open>Z\<close>
  (codes 65 to 90) by \<^verbatim>\<open>a\<close> to \<^verbatim>\<open>z\<close>, which sets the bit of weight 32, and
  changes nothing else. On a string with other characters the conversion is the
  engine's table and its context rules (it is not a map on single characters); the model
  does not contain them and takes that conversion as the parameter \<open>uni\<close>, so that
  every theorem holds for whatever the engine does there.
\<close>

type_synonym folding = "string \<Rightarrow> string"

fun toLowerChar :: "char \<Rightarrow> char" where
  "toLowerChar (Char b0 b1 b2 b3 b4 b5 b6 b7) =
     (if 65 \<le> (of_char (Char b0 b1 b2 b3 b4 b5 b6 b7) :: nat)
         \<and> (of_char (Char b0 b1 b2 b3 b4 b5 b6 b7) :: nat) \<le> 90
      then Char b0 b1 b2 b3 b4 True b6 b7
      else Char b0 b1 b2 b3 b4 b5 b6 b7)"

definition toLowerCase_str :: "folding \<Rightarrow> string \<Rightarrow> string" where
  "toLowerCase_str uni s = (if ascii_text s then map toLowerChar s else uni s)"

text \<open>
  \<^verbatim>\<open>x.toLowerCase()\<close>: only a string has the method; on any other JSON value the
  call throws a \<^verbatim>\<open>TypeError\<close>.
\<close>

fun toLowerCase :: "folding \<Rightarrow> json \<Rightarrow> js_error + string" where
  "toLowerCase uni (JStr s) = Inr (toLowerCase_str uni s)"
| "toLowerCase uni v = Inl TypeError"

text \<open>\<^verbatim>\<open>s.includes(q)\<close>: \<^verbatim>\<open>q\<close> occurs in \<^verbatim>\<open>s\<close> at some position.\<close>

fun str_includes :: "string \<Rightarrow> string \<Rightarrow> bool" where
  "str_includes [] q = (q = [])"
| "str_includes (c # cs) q = (prefix q (c # cs) \<or> str_includes cs q)"

text \<open>\<^verbatim>\<open>n.toString()\<close> of a non-negative integer: its decimal digits.\<close>

definition digit_char :: "nat \<Rightarrow> char" where
  "digit_char n = ''0123456789'' ! n"

fun toString :: "nat \<Rightarrow> string" where
  "toString n =
     (if n < 10 then [digit_char n] else toString (n div 10) @ [digit_char (n mod 10)])"

declare toString.simps [simp del]

subsection \<open>Arrays\<close>

text \<open>
  \<^verbatim>\<open>Array.prototype.filter\<close> with a callback that can throw: the callback runs on
  the elements in index order, and the first exception ends the loop. On an empty array
  the callback never runs.
\<close>

fun filter_try :: "('a \<Rightarrow> js_error + bool) \<Rightarrow> 'a list \<Rightarrow> js_error + 'a list" where
  "filter_try f [] = Inr []"
| "filter_try f (x # xs) =
     (case f x of
        Inl e \<Rightarrow> Inl e
      | Inr b \<Rightarrow>
          (case filter_try f xs of
             Inl e \<Rightarrow> Inl e
           | Inr ys \<Rightarrow> Inr (if b then x # ys else ys)))"

text \<open>
  \<^verbatim>\<open>Array.prototype.sort(cmp)\<close> is stable (ECMAScript 2019, every Node release that
  has a global \<^verbatim>\<open>fetch\<close>): \<^verbatim>\<open>a\<close> stays before \<^verbatim>\<open>b\<close> unless \<^verbatim>\<open>cmp(a, b) > 0\<close>.
  For a comparator that is a difference of keys the sorted array is determined by that,
  and a stable insertion sort computes it.
\<close>

fun insert_by :: "('a \<Rightarrow> 'a \<Rightarrow> real) \<Rightarrow> 'a \<Rightarrow> 'a list \<Rightarrow> 'a list" where
  "insert_by cmp x [] = [x]"
| "insert_by cmp x (y # ys) =
     (if cmp x y \<le> 0 then x # y # ys else y # insert_by cmp x ys)"

definition js_sort :: "('a \<Rightarrow> 'a \<Rightarrow> real) \<Rightarrow> 'a list \<Rightarrow> 'a list" where
  "js_sort cmp xs = foldr (insert_by cmp) xs []"

section \<open>The catalog\<close>

text \<open>
  A product as the handlers build and read it. The field \<^verbatim>\<open>id\<close> is named
  \<open>id_str\<close> here. \<^verbatim>\<open>POST /api/products\<close> stores the title, description,
  category and price of the body as they come, so they are JSON values.
\<close>

record product =
  id_str :: string
  title :: json
  description :: json
  category :: json
  price :: json
  description_vector :: "real list"
  title_vector :: "real list"

text \<open>
  \<^verbatim>\<open>Math.random()\<close> is an input of the model: \<open>rnd k\<close> is the value of the
  \<open>k\<close>-th call that an operation makes, counted from 0. The source multiplies and
  subtracts in double arithmetic; the model does so over the reals. The theorems hold for
  every \<open>rnd\<close>, and the order of two computed scores is the order of the reals they
  denote.
\<close>

type_synonym draws = "nat \<Rightarrow> real"

definition skip :: "nat \<Rightarrow> draws \<Rightarrow> draws" where
  "skip n rnd = (\<lambda>k. rnd (n + k))"

text \<open>The loop of \<^verbatim>\<open>createRandomVector\<close> pushes 512 values, one draw each.\<close>

definition createRandomVector :: "draws \<Rightarrow> real list" where
  "createRandomVector rnd = map (\<lambda>i. rnd i * 2 - 1) [0..<512]"

text \<open>
  The array \<^verbatim>\<open>sampleProducts\<close> as the module builds it when it is loaded: in each
  object literal the description vector is drawn before the title vector.
\<close>

definition sampleProducts :: "draws \<Rightarrow> product list" where
  "sampleProducts rnd =
     [ \<lparr> id_str = ''1'',
         title = JStr ''iPhone 15 Pro'',
         description = JStr ''Latest Apple smartphone with titanium design and advanced camera system'',
         category = JStr ''Electronics'',
         price = JNum 999.99,
         description_vector = createRandomVector rnd,
         title_vector = createRandomVector (skip 512 rnd) \<rparr>,
       \<lparr> id_str = ''2'',
         title = JStr ''MacBook Air M2'',
         description = JStr ''Thin and light laptop with Apple Silicon chip for everyday computing'',
         category = JStr ''Computers'',
         price = JNum 1199.99,
         description_vector = createRandomVector (skip 1024 rnd),
         title_vector = createRandomVector (skip 1536 rnd) \<rparr>,
       \<lparr> id_str = ''3'',
         title = JStr ''Nike Air Max'',
         description = JStr ''Comfortable running shoes with air cushioning technology'',
         category = JStr ''Sports'',
         price = JNum 129.99,
         description_vector = createRandomVector (skip 2048 rnd),
         title_vector = createRandomVector (skip 2560 rnd) \<rparr>,
       \<lparr> id_str = ''4'',
         title = JStr ''Samsung 4K TV'',
         description = JStr ''High definition television with smart features and HDR support'',
         category = JStr ''Electronics'',
         price = JNum 599.99,
         description_vector = createRandomVector (skip 3072 rnd),
         title_vector = createRandomVector (skip 3584 rnd) \<rparr>,
       \<lparr> id_str = ''5'',
         title = JStr ''Organic Coffee Beans'',
         description = JStr ''Premium Arabica coffee beans from sustainable farms'',
         category = JStr ''Food'',
         price = JNum 24.99,
         description_vector = createRandomVector (skip 4096 rnd),
         title_vector = createRandomVector (skip 4608 rnd) \<rparr> ]"

section \<open>GET /api/products\<close>

text \<open>
  The body holds the array and its length (\<^verbatim>\<open>count\<close> in the source, named
  \<open>products_count\<close> here) and a constant message, which is left out.
\<close>

record products_reply =
  products :: "product list"
  products_count :: nat

definition listProducts :: "product list \<Rightarrow> products_reply response" where
  "listProducts cat = Status200 \<lparr> products = cat, products_count = length cat \<rparr>"

section \<open>POST /api/search\<close>

text \<open>
  An element of \<^verbatim>\<open>results\<close>: a product as it is in the catalog, or a copy of it
  with the added field \<^verbatim>\<open>similarity\<close>.
\<close>

datatype hit = Plain product | Scored product real

fun hit_id :: "hit \<Rightarrow> string" where
  "hit_id (Plain p) = id_str p"
| "hit_id (Scored p s) = id_str p"

fun hit_product :: "hit \<Rightarrow> product" where
  "hit_product (Plain p) = p"
| "hit_product (Scored p s) = p"

fun similarity :: "hit \<Rightarrow> real option" where
  "similarity (Plain p) = None"
| "similarity (Scored p s) = Some s"

fun scored_hit :: "product \<times> real \<Rightarrow> hit" where
  "scored_hit (p, s) = Scored p s"

text \<open>
  The body of a successful search. The field \<^verbatim>\<open>message\<close>, a sentence that repeats
  \<^verbatim>\<open>count\<close> and \<^verbatim>\<open>searchType\<close>, is left out.
\<close>

record search_reply =
  query :: json
  searchType :: json
  results :: "hit list"
  count :: nat

definition respond :: "json \<Rightarrow> json \<Rightarrow> hit list \<Rightarrow> search_reply response" where
  "respond q st rs =
     Status200 \<lparr> query = q, searchType = st, results = rs, count = length rs \<rparr>"

text \<open>\<^verbatim>\<open>product.title.toLowerCase().includes(query.toLowerCase())\<close>\<close>

definition title_includes :: "folding \<Rightarrow> json \<Rightarrow> product \<Rightarrow> js_error + bool" where
  "title_includes uni q p =
     (case toLowerCase uni (title p) of
        Inl e \<Rightarrow> Inl e
      | Inr t \<Rightarrow> (case toLowerCase uni q of Inl e \<Rightarrow> Inl e | Inr ql \<Rightarrow> Inr (str_includes t ql)))"

definition description_includes :: "folding \<Rightarrow> json \<Rightarrow> product \<Rightarrow> js_error + bool" where
  "description_includes uni q p =
     (case toLowerCase uni (description p) of
        Inl e \<Rightarrow> Inl e
      | Inr t \<Rightarrow> (case toLowerCase uni q of Inl e \<Rightarrow> Inl e | Inr ql \<Rightarrow> Inr (str_includes t ql)))"

text \<open>The callback of the text branch: \<^verbatim>\<open>||\<close> reads the description only when the
  title does not match.\<close>

definition text_matches :: "folding \<Rightarrow> json \<Rightarrow> product \<Rightarrow> js_error + bool" where
  "text_matches uni q p =
     (case title_includes uni q p of
        Inl e \<Rightarrow> Inl e
      | Inr b \<Rightarrow> (if b then Inr True else description_includes uni q p))"

text \<open>
  \<^verbatim>\<open>sampleProducts.map((product) => ({...product, similarity: Math.random() * 100}))\<close>:
  the product at index \<open>i\<close> gets the \<open>i\<close>-th draw.
\<close>

definition score_all :: "draws \<Rightarrow> product list \<Rightarrow> (product \<times> real) list" where
  "score_all rnd cat = map (\<lambda>i. (cat ! i, rnd i * 100)) [0..<length cat]"

text \<open>The comparator \<^verbatim>\<open>(a, b) => b.similarity - a.similarity\<close>.\<close>

definition by_similarity :: "product \<times> real \<Rightarrow> product \<times> real \<Rightarrow> real" where
  "by_similarity a b = snd b - snd a"

definition semantic_branch :: "draws \<Rightarrow> product list \<Rightarrow> hit list" where
  "semantic_branch rnd cat = map scored_hit (take 3 (js_sort by_similarity (score_all rnd cat)))"

definition hybrid_branch ::
  "folding \<Rightarrow> draws \<Rightarrow> product list \<Rightarrow> json \<Rightarrow> js_error + hit list" where
  "hybrid_branch uni rnd cat q =
     (case filter_try (title_includes uni q) cat of
        Inl e \<Rightarrow> Inl e
      | Inr textResults \<Rightarrow>
          (let vectorResults = js_sort by_similarity (score_all rnd cat);
               textIds = set (map id_str textResults);
               combinedResults =
                 map Plain textResults
                 @ map scored_hit (filter (\<lambda>p. id_str (fst p) \<notin> textIds) vectorResults)
           in Inr (take 5 combinedResults)))"

text \<open>
  The \<^verbatim>\<open>try\<close> block of the handler. \<open>q\<close> and \<open>st0\<close> are the keys \<^verbatim>\<open>query\<close>
  and \<^verbatim>\<open>searchType\<close> of the body; the default \<^verbatim>\<open>"text"\<close> replaces
  \<^verbatim>\<open>undefined\<close> only.
\<close>

definition search_try ::
  "folding \<Rightarrow> draws \<Rightarrow> product list \<Rightarrow> json \<Rightarrow> json \<Rightarrow> js_error + search_reply response" where
  "search_try uni rnd cat q st0 =
     (let st = (if st0 = JUndefined then JStr ''text'' else st0) in
      if \<not> truthy q then Inr (Status400 ''Query is required'')
      else if st = JStr ''text'' then
        (case filter_try (text_matches uni q) cat of
           Inl e \<Rightarrow> Inl e
         | Inr ps \<Rightarrow> Inr (respond q st (map Plain ps)))
      else if st = JStr ''semantic'' then Inr (respond q st (semantic_branch rnd cat))
      else
        (case hybrid_branch uni rnd cat q of
           Inl e \<Rightarrow> Inl e
         | Inr rs \<Rightarrow> Inr (respond q st rs)))"

text \<open>The handler: the \<^verbatim>\<open>catch\<close> block answers 500 whatever was thrown.\<close>

definition search ::
  "folding \<Rightarrow> draws \<Rightarrow> product list \<Rightarrow> json \<Rightarrow> json \<Rightarrow> search_reply response" where
  "search uni rnd cat q st0 =
     (case search_try uni rnd cat q st0 of
        Inl e \<Rightarrow> Status500 ''Search failed''
      | Inr r \<Rightarrow> r)"

section \<open>POST /api/products\<close>

text \<open>
  The handler returns its response and the catalog after it. Nothing in its
  \<^verbatim>\<open>try\<close> block can throw, so the \<^verbatim>\<open>catch\<close> block has no branch here. The body
  of the 201 response is the new product (and a constant message).
\<close>

definition addProduct ::
  "draws \<Rightarrow> product list \<Rightarrow> json \<Rightarrow> json \<Rightarrow> json \<Rightarrow> json \<Rightarrow> product response \<times> product list" where
  "addProduct rnd cat t d c pr =
     (if \<not> truthy t \<or> \<not> truthy d then (Status400 ''Title and description are required'', cat)
      else
        (let newProduct =
               \<lparr> id_str = toString (length cat + 1),
                 title = t,
                 description = d,
                 category = (if truthy c then c else JStr ''General''),
                 price = (if truthy pr then pr else JNum 0),
                 description_vector = createRandomVector rnd,
                 title_vector = createRandomVector (skip 512 rnd) \<rparr>
         in (Status201 newProduct, cat @ [newProduct])))"

text \<open>The catalogs the server can hold: the initial array, grown by the handler.\<close>

inductive reachable :: "product list \<Rightarrow> bool" where
  initial: "reachable (sampleProducts rnd)"
| added: "reachable cat \<Longrightarrow> addProduct rnd cat t d c pr = (r, cat') \<Longrightarrow> reachable cat'"

section \<open>GET /api/vespa/status\<close>

text \<open>
  What the external call can do: \<^verbatim>\<open>fetch\<close> rejects, or it resolves with a status
  code, after which \<^verbatim>\<open>response.text()\<close> rejects (\<open>Inl\<close>) or gives the body.
\<close>

datatype fetch_outcome =
    FetchRejected string
  | FetchResolved nat "string + string"

datatype vespa_code = Code nat | Disconnected

record vespa_reply =
  vespaStatus :: vespa_code
  status :: "string option"
  error :: "string option"
  connected :: bool

definition vespa_status_try :: "fetch_outcome \<Rightarrow> js_error + vespa_reply" where
  "vespa_status_try out =
     (case out of
        FetchRejected m \<Rightarrow> Inl (TransportError m)
      | FetchResolved code txt \<Rightarrow>
          (case txt of
             Inl m \<Rightarrow> Inl (TransportError m)
           | Inr s \<Rightarrow>
               Inr \<lparr> vespaStatus = Code code, status = Some s, error = None,
                     connected = (code = 200) \<rparr>))"

text \<open>The handler with its \<^verbatim>\<open>catch\<close> block; \<open>Inl\<close> would be an exception that
  leaves the handler.\<close>

definition vespa_status :: "fetch_outcome \<Rightarrow> js_error + vespa_reply response" where
  "vespa_status out =
     (case vespa_status_try out of
        Inl e \<Rightarrow>
          Inr (Status200 \<lparr> vespaStatus = Disconnected, status = None,
                           error = Some (message e), connected = False \<rparr>)
      | Inr r \<Rightarrow> Inr (Status200 r))"

fun transport_failure :: "fetch_outcome \<Rightarrow> bool" where
  "transport_failure (FetchRejected m) = True"
| "transport_failure (FetchResolved code (Inl m)) = True"
| "transport_failure (FetchResolved code (Inr s)) = False"

section \<open>Notions of the specification\<close>

text \<open>
  The specification's matching predicate, in the words of its Lexical Matcher: both the
  query and the field are case-folded, and a product matches when its folded title or
  its folded description contains the folded query as a substring.
\<close>

definition folded_contains :: "folding \<Rightarrow> string \<Rightarrow> string \<Rightarrow> bool" where
  "folded_contains uni s q =
     list_ex (\<lambda>w. w = toLowerCase_str uni q) (sublists (toLowerCase_str uni s))"

fun text_of :: "json \<Rightarrow> string" where
  "text_of (JStr s) = s"
| "text_of v = []"

definition matches_query :: "folding \<Rightarrow> string \<Rightarrow> product \<Rightarrow> bool" where
  "matches_query uni q p =
     (folded_contains uni (text_of (title p)) q \<or> folded_contains uni (text_of (description p)) q)"

text \<open>
  On ASCII text, containment under case-insensitive comparison without folding whole
  strings: one of the contiguous substrings of the text equals the query up to the case
  of the letters.
\<close>

definition ci_contains :: "string \<Rightarrow> string \<Rightarrow> bool" where
  "ci_contains s q = list_ex (\<lambda>w. map toLowerChar w = map toLowerChar q) (sublists s)"

definition ci_matches :: "string \<Rightarrow> product \<Rightarrow> bool" where
  "ci_matches q p =
     (ci_contains (text_of (title p)) q \<or> ci_contains (text_of (description p)) q)"

definition ascii_product :: "product \<Rightarrow> bool" where
  "ascii_product p = (ascii_text (text_of (title p)) \<and> ascii_text (text_of (description p)))"

text \<open>\<open>a\<close> has a lower similarity score than \<open>b\<close>.\<close>

fun similarity_less :: "hit \<Rightarrow> hit \<Rightarrow> bool" where
  "similarity_less (Scored p x) (Scored p' y) = (x < y)"
| "similarity_less a b = False"

text \<open>The result list of a response; an error response has none.\<close>

fun reply_results :: "search_reply response \<Rightarrow> hit list" where
  "reply_results (Status200 r) = results r"
| "reply_results other = []"

text \<open>
  Two sequences of draws in the range of \<^verbatim>\<open>Math.random()\<close>, for running the handlers
  on concrete inputs: \<open>0, 0.1, 0.2, \<dots>\<close> and \<open>0.9, 0.8, 0.7, \<dots>\<close>.
\<close>

definition draws_up :: draws where
  "draws_up k = real (k mod 10) / 10"

definition draws_down :: draws where
  "draws_down k = real (9 - k mod 10) / 10"

text \<open>
  The concrete runs below are on ASCII strings only, where the folding of other strings
  is never consulted; they take for it the function that leaves those strings as they
  are.
\<close>

definition other_unchanged :: folding where
  "other_unchanged s = s"

section \<open>Strings and arrays\<close>

lemma str_includes_sublist: "str_includes s q \<longleftrightarrow> sublist q s"
  by (induction s) (simp_all add: sublist_Cons_right)

lemma ci_contains_iff:
  "ci_contains s q \<longleftrightarrow> (\<exists>w. sublist w s \<and> map toLowerChar w = map toLowerChar q)"
  by (auto simp: ci_contains_def list_ex_iff)

text \<open>The code folds both strings and then searches; the specification searches for a
  substring that folds to the folded query. The two agree.\<close>

lemma includes_lower_iff:
  "str_includes (map toLowerChar s) (map toLowerChar q) \<longleftrightarrow> ci_contains s q"
proof
  assume "str_includes (map toLowerChar s) (map toLowerChar q)"
  then have "sublist (map toLowerChar q) (map toLowerChar s)"
    by (simp add: str_includes_sublist)
  then obtain w where "sublist w s" "map toLowerChar q = map toLowerChar w"
    using sublist_map_rightE by blast
  then show "ci_contains s q"
    by (auto simp: ci_contains_iff)
next
  assume "ci_contains s q"
  then obtain w where w: "sublist w s" "map toLowerChar w = map toLowerChar q"
    by (auto simp: ci_contains_iff)
  from w(1) have "sublist (map toLowerChar w) (map toLowerChar s)"
    by (rule map_mono_sublist)
  with w(2) show "str_includes (map toLowerChar s) (map toLowerChar q)"
    by (simp add: str_includes_sublist)
qed

lemma folded_contains_iff:
  "folded_contains uni s q \<longleftrightarrow> str_includes (toLowerCase_str uni s) (toLowerCase_str uni q)"
  by (simp add: folded_contains_def list_ex_iff str_includes_sublist)

lemma folded_contains_ascii:
  "ascii_text s \<Longrightarrow> ascii_text q \<Longrightarrow> folded_contains uni s q \<longleftrightarrow> ci_contains s q"
  by (simp add: folded_contains_iff toLowerCase_str_def includes_lower_iff)

lemma filter_try_total:
  "(\<And>x. x \<in> set xs \<Longrightarrow> f x = Inr (g x)) \<Longrightarrow> filter_try f xs = Inr (filter g xs)"
  by (induction xs) simp_all

lemma filter_try_Inr:
  "filter_try f xs = Inr ys \<Longrightarrow> ys = filter (\<lambda>x. f x = Inr True) xs"
  by (induction xs arbitrary: ys) (auto split: sum.splits if_splits)

subsection \<open>Decimal numerals are injective\<close>

lemma digit_char_inj:
  assumes "m < 10" and "n < 10" and "digit_char m = digit_char n"
  shows "m = n"
proof -
  have d: "distinct ''0123456789''" by simp
  have l: "length ''0123456789'' = 10" by simp
  from assms show "m = n"
    unfolding digit_char_def using d l nth_eq_iff_index_eq by metis
qed

lemma toString_not_Nil: "toString n \<noteq> []" "[] \<noteq> toString n"
  by (subst toString.simps, simp)+

lemma toString_inj: "toString m = toString n \<Longrightarrow> m = n"
proof (induction m arbitrary: n rule: toString.induct)
  case (1 m)
  show ?case
  proof (cases "m < 10")
    case small_m: True
    show ?thesis
    proof (cases "n < 10")
      case True
      with small_m "1.prems" show ?thesis
        by (simp add: toString.simps [of m] toString.simps [of n] digit_char_inj)
    next
      case False
      with small_m "1.prems" show ?thesis
        by (simp add: toString.simps [of m] toString.simps [of n] toString_not_Nil)
    qed
  next
    case big_m: False
    show ?thesis
    proof (cases "n < 10")
      case True
      with big_m "1.prems" show ?thesis
        by (simp add: toString.simps [of m] toString.simps [of n] toString_not_Nil)
    next
      case False
      with big_m "1.prems" have e: "toString (m div 10) = toString (n div 10)"
        and d: "digit_char (m mod 10) = digit_char (n mod 10)"
        by (simp_all add: toString.simps [of m] toString.simps [of n])
      from "1.IH" [OF big_m e] have q: "m div 10 = n div 10" .
      from d have r: "m mod 10 = n mod 10"
        by (intro digit_char_inj) simp_all
      from q r show ?thesis
        by (metis div_mult_mod_eq)
    qed
  qed
qed

subsection \<open>The sort by similarity\<close>

text \<open>With the comparator of the source, the insertion of \<open>js_sort\<close> is the library's
  stable insertion on the key \<open>- similarity\<close>.\<close>

lemma insert_by_similarity:
  "insert_by by_similarity x ys = insort_key (\<lambda>a. - snd a) x ys"
  by (induction ys) (simp_all add: by_similarity_def)

lemma js_sort_by_similarity:
  "js_sort by_similarity xs = sort_key (\<lambda>a. - snd a) xs"
  by (induction xs) (simp_all add: js_sort_def insert_by_similarity)

lemma ranked_descending:
  "sorted_wrt (\<lambda>a b. snd b \<le> snd a) (js_sort by_similarity xs)"
proof -
  have "sorted (map (\<lambda>a. - snd a) (js_sort by_similarity xs))"
    by (simp add: js_sort_by_similarity)
  then show ?thesis
    by (simp add: sorted_map)
qed

lemma ranked_stable:
  "filter (\<lambda>a. snd a = s) (js_sort by_similarity xs) = filter (\<lambda>a. snd a = s) xs"
  using sort_key_stable [of "\<lambda>a. - snd a" "- s" xs]
  by (simp add: js_sort_by_similarity)

lemma mset_ranked: "mset (js_sort by_similarity xs) = mset xs"
  by (simp add: js_sort_by_similarity)

lemma length_ranked: "length (js_sort by_similarity xs) = length xs"
  by (simp add: js_sort_by_similarity)

lemma length_score_all: "length (score_all rnd cat) = length cat"
  by (simp add: score_all_def)

lemma map_fst_score_all: "map fst (score_all rnd cat) = cat"
  by (simp add: score_all_def map_nth comp_def)

lemma score_all_cong:
  "(\<forall>i < length cat. rnd i = rnd' i) \<Longrightarrow> score_all rnd cat = score_all rnd' cat"
  by (simp add: score_all_def)

section \<open>Identifiers of the catalog\<close>

lemma ids_sampleProducts:
  "map id_str (sampleProducts rnd) = map toString [1..<Suc (length (sampleProducts rnd))]"
  by (simp add: sampleProducts_def toString.simps digit_char_def upt_rec)

text \<open>The invariant of the catalog: the product at position \<open>i\<close> has the identifier
  \<open>i + 1\<close> in decimal.\<close>

lemma reachable_ids: "reachable cat \<Longrightarrow> map id_str cat = map toString [1..<Suc (length cat)]"
proof (induction rule: reachable.induct)
  case (initial rnd)
  show ?case by (rule ids_sampleProducts)
next
  case (added cat rnd t d c pr r cat')
  then show ?case
    by (auto simp: addProduct_def Let_def split: if_splits)
qed

lemma reachable_distinct_ids:
  assumes "reachable cat"
  shows "distinct (map id_str cat)"
proof -
  from assms have "map id_str cat = map toString [1..<Suc (length cat)]"
    by (rule reachable_ids)
  moreover have "distinct (map toString [1..<Suc (length cat)])"
    by (simp add: distinct_map inj_on_def toString_inj del: upt_Suc)
  ultimately show ?thesis by simp
qed

lemma reachable_length: "reachable cat \<Longrightarrow> 5 \<le> length cat"
  by (induction rule: reachable.induct)
     (auto simp: sampleProducts_def addProduct_def Let_def split: if_splits)

lemma sampleProducts_text:
  "\<forall>p \<in> set (sampleProducts rnd). is_string (title p) \<and> is_string (description p)"
  by (simp add: sampleProducts_def)

section \<open>Running the search handler\<close>

lemmas run_search =
  search_def search_try_def respond_def semantic_branch_def hybrid_branch_def score_all_def
  js_sort_def by_similarity_def sampleProducts_def title_includes_def description_includes_def
  text_matches_def toLowerCase_str_def ascii_text_def

text \<open>On ASCII text the response does not depend on how the engine folds other
  strings, so a concrete run on ASCII text is a run of the handler on any engine.\<close>

lemma toLowerCase_ascii:
  "ascii_text (text_of v) \<Longrightarrow> toLowerCase uni v = toLowerCase uni' v"
  by (cases v) (simp_all add: toLowerCase_str_def)

lemma filter_try_cong:
  "(\<And>x. x \<in> set xs \<Longrightarrow> f x = g x) \<Longrightarrow> filter_try f xs = filter_try g xs"
  by (induction xs) (simp_all split: sum.splits)

lemma title_includes_ascii:
  assumes "ascii_text q" and "ascii_product p"
  shows "title_includes uni (JStr q) p = title_includes uni' (JStr q) p"
proof -
  have "toLowerCase uni (title p) = toLowerCase uni' (title p)"
    using assms(2) by (intro toLowerCase_ascii) (simp add: ascii_product_def)
  moreover have "toLowerCase uni (JStr q) = toLowerCase uni' (JStr q)"
    using assms(1) by (intro toLowerCase_ascii) simp
  ultimately show ?thesis
    by (simp only: title_includes_def)
qed

lemma description_includes_ascii:
  assumes "ascii_text q" and "ascii_product p"
  shows "description_includes uni (JStr q) p = description_includes uni' (JStr q) p"
proof -
  have "toLowerCase uni (description p) = toLowerCase uni' (description p)"
    using assms(2) by (intro toLowerCase_ascii) (simp add: ascii_product_def)
  moreover have "toLowerCase uni (JStr q) = toLowerCase uni' (JStr q)"
    using assms(1) by (intro toLowerCase_ascii) simp
  ultimately show ?thesis
    by (simp only: description_includes_def)
qed

lemma search_ascii_any_folding:
  assumes "ascii_text q" and "\<forall>p \<in> set cat. ascii_product p"
  shows "search uni rnd cat (JStr q) st = search uni' rnd cat (JStr q) st"
proof -
  have t: "filter_try (title_includes uni (JStr q)) cat = filter_try (title_includes uni' (JStr q)) cat"
    using assms by (intro filter_try_cong title_includes_ascii) auto
  have "text_matches uni (JStr q) p = text_matches uni' (JStr q) p" if "p \<in> set cat" for p
    using that assms
    by (simp only: text_matches_def title_includes_ascii [of q p uni uni']
        description_includes_ascii [of q p uni uni'])
  then have m: "filter_try (text_matches uni (JStr q)) cat = filter_try (text_matches uni' (JStr q)) cat"
    by (rule filter_try_cong)
  have h: "hybrid_branch uni rnd cat (JStr q) = hybrid_branch uni' rnd cat (JStr q)"
    unfolding hybrid_branch_def t ..
  show ?thesis
    unfolding search_def search_try_def m h ..
qed

lemma semantic_search_reply:
  "truthy q \<Longrightarrow>
   search uni rnd cat q (JStr ''semantic'')
     = Status200 \<lparr> query = q, searchType = JStr ''semantic'',
                   results = semantic_branch rnd cat,
                   count = length (semantic_branch rnd cat) \<rparr>"
  by (simp add: search_def search_try_def respond_def)

text \<open>The examples of the specification: \<^verbatim>\<open>search("iphone", "text")\<close> returns the
  iPhone, \<^verbatim>\<open>search("tv", "text")\<close> the television, and \<^verbatim>\<open>search("xyz123", "text")\<close>
  nothing, with count 0.\<close>

lemma text_search_examples:
  "map hit_id (reply_results
      (search other_unchanged draws_up (sampleProducts draws_up) (JStr ''iphone'') (JStr ''text''))) = [''1'']
   \<and> map hit_id (reply_results
      (search other_unchanged draws_up (sampleProducts draws_up) (JStr ''tv'') (JStr ''text''))) = [''4'']
   \<and> search other_unchanged draws_up (sampleProducts draws_up) (JStr ''xyz123'') (JStr ''text'')
      = Status200 \<lparr> query = JStr ''xyz123'', searchType = JStr ''text'', results = [], count = 0 \<rparr>"
  by (simp add: run_search)

section \<open>Text mode\<close>

lemma title_includes_text:
  "title p = JStr t \<Longrightarrow> title_includes uni (JStr q) p = Inr (folded_contains uni t q)"
  by (simp add: title_includes_def folded_contains_iff)

lemma description_includes_text:
  "description p = JStr t \<Longrightarrow> description_includes uni (JStr q) p = Inr (folded_contains uni t q)"
  by (simp add: description_includes_def folded_contains_iff)

lemma text_matches_text:
  assumes "is_string (title p)" and "is_string (description p)"
  shows "text_matches uni (JStr q) p = Inr (matches_query uni q p)"
proof -
  from assms obtain t d where td: "title p = JStr t" "description p = JStr d"
    by (metis is_string.elims(2))
  then show ?thesis
    by (simp add: text_matches_def matches_query_def title_includes_text description_includes_text)
qed

lemma matches_query_ascii:
  "ascii_text q \<Longrightarrow> ascii_product p \<Longrightarrow> matches_query uni q p \<longleftrightarrow> ci_matches q p"
  by (simp add: matches_query_def ci_matches_def ascii_product_def folded_contains_ascii)

text \<open>
  Claim C1, as the code has it. For every non-empty query string, a search in text mode
  over a catalog whose titles and descriptions are all strings answers 200 with exactly
  the products that match: the result list is the catalog filtered, in catalog order, by
  the specification's predicate (the lowercased title or the lowercased description
  contains the lowercased query); so every returned product is in the catalog and
  matches, and every catalog product that matches is returned. When the query and the
  catalog's texts are ASCII, matching is containing a substring that equals the query up
  to the case of the letters.
\<close>

theorem text_search_exact:
  assumes "q \<noteq> []"
    and "\<forall>p \<in> set cat. is_string (title p) \<and> is_string (description p)"
  shows "\<exists>r. search uni rnd cat (JStr q) (JStr ''text'') = Status200 r
           \<and> results r = map Plain (filter (matches_query uni q) cat)
           \<and> (\<forall>h \<in> set (results r).
                 hit_product h \<in> set cat \<and> matches_query uni q (hit_product h))
           \<and> (\<forall>p \<in> set cat. matches_query uni q p \<longrightarrow> Plain p \<in> set (results r))
           \<and> (ascii_text q \<and> (\<forall>p \<in> set cat. ascii_product p) \<longrightarrow>
                 results r = map Plain (filter (ci_matches q) cat))"
proof -
  have "filter_try (text_matches uni (JStr q)) cat = Inr (filter (matches_query uni q) cat)"
    using assms(2) by (intro filter_try_total text_matches_text) auto
  with assms(1) have r: "search uni rnd cat (JStr q) (JStr ''text'')
      = Status200 \<lparr> query = JStr q, searchType = JStr ''text'',
                    results = map Plain (filter (matches_query uni q) cat),
                    count = length (filter (matches_query uni q) cat) \<rparr>"
    by (simp add: search_def search_try_def respond_def)
  have a: "filter (matches_query uni q) cat = filter (ci_matches q) cat"
    if "ascii_text q" and "\<forall>p \<in> set cat. ascii_product p"
    using that by (intro filter_cong refl) (simp add: matches_query_ascii)
  from r a show ?thesis
    by auto
qed

theorem text_search_exact_witness:
  "''iphone'' \<noteq> []
   \<and> list_all (\<lambda>p. is_string (title p) \<and> is_string (description p)) (sampleProducts draws_up)
   \<and> ascii_text ''iphone''
   \<and> list_all ascii_product (sampleProducts draws_up)
   \<and> (\<exists>r. search other_unchanged draws_up (sampleProducts draws_up) (JStr ''iphone'') (JStr ''text'')
            = Status200 r
        \<and> results r
            = map Plain (filter (matches_query other_unchanged ''iphone'') (sampleProducts draws_up))
        \<and> results r = map Plain (filter (ci_matches ''iphone'') (sampleProducts draws_up))
        \<and> map hit_id (results r) = [''1''])"
proof -
  have nonempty: "''iphone'' \<noteq> []" by simp
  note texts = sampleProducts_text [of draws_up]
  have aq: "ascii_text ''iphone''"
    by (simp add: ascii_text_def)
  have ap: "list_all ascii_product (sampleProducts draws_up)"
    by (simp add: sampleProducts_def ascii_product_def ascii_text_def)
  then have ap': "\<forall>p \<in> set (sampleProducts draws_up). ascii_product p"
    by (simp only: list_all_iff)
  from text_search_exact [OF nonempty texts, of other_unchanged draws_up] aq ap'
  obtain r where r: "search other_unchanged draws_up (sampleProducts draws_up) (JStr ''iphone'') (JStr ''text'')
      = Status200 r"
    and f: "results r
      = map Plain (filter (matches_query other_unchanged ''iphone'') (sampleProducts draws_up))"
    and c: "results r = map Plain (filter (ci_matches ''iphone'') (sampleProducts draws_up))"
    by blast
  have "map hit_id (reply_results
      (search other_unchanged draws_up (sampleProducts draws_up) (JStr ''iphone'') (JStr ''text'')))
      = [''1'']"
    by (simp add: run_search)
  with r have i: "map hit_id (results r) = [''1'']" by simp
  show ?thesis
  proof (intro conjI exI)
    show "''iphone'' \<noteq> []" by (rule nonempty)
    show "list_all (\<lambda>p. is_string (title p) \<and> is_string (description p)) (sampleProducts draws_up)"
      using texts by (simp only: list_all_iff)
    show "ascii_text ''iphone''" by (rule aq)
    show "list_all ascii_product (sampleProducts draws_up)" by (rule ap)
    show "search other_unchanged draws_up (sampleProducts draws_up) (JStr ''iphone'') (JStr ''text'')
        = Status200 r"
      by (rule r)
    show "results r
        = map Plain (filter (matches_query other_unchanged ''iphone'') (sampleProducts draws_up))"
      by (rule f)
    show "results r = map Plain (filter (ci_matches ''iphone'') (sampleProducts draws_up))"
      by (rule c)
    show "map hit_id (results r) = [''1'']" by (rule i)
  qed
qed

text \<open>
  The claim as stated fails on a catalog the server can hold: the handler of
  \<^verbatim>\<open>POST /api/products\<close> stores a title of any JSON type, here the number 5, and
  every later text search throws in the filter and answers 500. The query ``iphone''
  then returns no product, although the title of product 1 contains it.
\<close>

theorem text_search_non_string_title_counterexample:
  "fst (addProduct draws_up (sampleProducts draws_up) (JNum 5) (JStr ''five'') JUndefined JUndefined)
     = Status201 \<lparr> id_str = ''6'', title = JNum 5, description = JStr ''five'',
                   category = JStr ''General'', price = JNum 0,
                   description_vector = createRandomVector draws_up,
                   title_vector = createRandomVector (skip 512 draws_up) \<rparr>
   \<and> reachable
        (snd (addProduct draws_up (sampleProducts draws_up) (JNum 5) (JStr ''five'') JUndefined JUndefined))
   \<and> search other_unchanged draws_up
        (snd (addProduct draws_up (sampleProducts draws_up) (JNum 5) (JStr ''five'') JUndefined JUndefined))
        (JStr ''iphone'') (JStr ''text'')
     = Status500 ''Search failed''
   \<and> title (hd (sampleProducts draws_up)) = JStr ''iPhone 15 Pro''
   \<and> ci_contains ''iPhone 15 Pro'' ''iphone''"
proof -
  have "reachable
        (snd (addProduct draws_up (sampleProducts draws_up) (JNum 5) (JStr ''five'') JUndefined JUndefined))"
    by (rule reachable.added [OF reachable.initial]) (rule prod.collapse [symmetric])
  moreover have "ci_contains ''iPhone 15 Pro'' ''iphone''"
    unfolding includes_lower_iff [symmetric] by simp
  ultimately show ?thesis
    by (simp add: addProduct_def Let_def run_search toString.simps digit_char_def)
qed

section \<open>Semantic mode\<close>

lemma scored_descending:
  "sorted_wrt (\<lambda>a b. snd b \<le> snd a) xs \<Longrightarrow>
   sorted_wrt (\<lambda>a b. \<not> similarity_less a b) (map scored_hit xs)"
  by (induction xs) auto

lemma semantic_branch_sorted:
  "sorted_wrt (\<lambda>a b. \<not> similarity_less a b) (semantic_branch rnd cat)"
  unfolding semantic_branch_def
  by (intro scored_descending sorted_wrt_take ranked_descending)

lemma semantic_branch_length: "length (semantic_branch rnd cat) = min 3 (length cat)"
  by (simp add: semantic_branch_def length_ranked length_score_all min.commute)

lemma semantic_branch_scored: "\<forall>h \<in> set (semantic_branch rnd cat). similarity h \<noteq> None"
  by (auto simp: semantic_branch_def)

text \<open>The three results are the top of the ranking: with the products left out they
  make up the scored catalog, and no product left out has a higher score than one
  returned.\<close>

lemma semantic_branch_top:
  "\<exists>rest. mset (semantic_branch rnd cat @ map scored_hit rest)
            = mset (map scored_hit (score_all rnd cat))
     \<and> (\<forall>a \<in> set (semantic_branch rnd cat). \<forall>b \<in> set (map scored_hit rest).
           \<not> similarity_less a b)"
proof -
  let ?ranked = "js_sort by_similarity (score_all rnd cat)"
  have split: "take 3 ?ranked @ drop 3 ?ranked = ?ranked"
    by simp
  have "sorted_wrt (\<lambda>a b. snd b \<le> snd a) (take 3 ?ranked @ drop 3 ?ranked)"
    by (simp only: split ranked_descending)
  then have below: "\<forall>a \<in> set (take 3 ?ranked). \<forall>b \<in> set (drop 3 ?ranked). snd b \<le> snd a"
    unfolding sorted_wrt_append by blast
  have "mset (semantic_branch rnd cat @ map scored_hit (drop 3 ?ranked))
      = mset (map scored_hit ?ranked)"
    unfolding semantic_branch_def by (simp only: map_append [symmetric] split)
  also have "\<dots> = mset (map scored_hit (score_all rnd cat))"
    by (simp add: mset_ranked)
  finally have m: "mset (semantic_branch rnd cat @ map scored_hit (drop 3 ?ranked))
      = mset (map scored_hit (score_all rnd cat))" .
  have "\<forall>a \<in> set (semantic_branch rnd cat). \<forall>b \<in> set (map scored_hit (drop 3 ?ranked)).
      \<not> similarity_less a b"
    using below by (fastforce simp: semantic_branch_def)
  with m show ?thesis by blast
qed

text \<open>
  Claim C4. For every query that passes validation, a search in semantic mode answers
  200 with min(3, catalog size) results, each carrying a similarity score, such that no
  result has a lower score than a result after it; the results are the top of the
  ranking of the whole scored catalog (no product left out scores higher than a
  returned one).
\<close>

theorem semantic_top3_sorted:
  assumes "truthy q"
  shows "\<exists>r. search uni rnd cat q (JStr ''semantic'') = Status200 r
           \<and> length (results r) = min 3 (length cat)
           \<and> (\<forall>h \<in> set (results r). similarity h \<noteq> None)
           \<and> sorted_wrt (\<lambda>a b. \<not> similarity_less a b) (results r)
           \<and> (\<exists>rest. mset (results r @ map scored_hit rest)
                        = mset (map scored_hit (score_all rnd cat))
                \<and> (\<forall>a \<in> set (results r). \<forall>b \<in> set (map scored_hit rest).
                      \<not> similarity_less a b))"
  using semantic_search_reply [OF assms, of uni rnd cat]
    semantic_branch_scored [of rnd cat] semantic_branch_length [of rnd cat]
    semantic_branch_sorted [of rnd cat] semantic_branch_top [of rnd cat]
  by simp

theorem semantic_top3_sorted_witness:
  "truthy (JStr ''laptop'')
   \<and> (\<exists>r. search other_unchanged draws_up (sampleProducts draws_up) (JStr ''laptop'') (JStr ''semantic'') = Status200 r
        \<and> length (results r) = 3
        \<and> map hit_id (results r) = [''5'', ''4'', ''3'']
        \<and> map similarity (results r) = [Some 40, Some 30, Some 20]
        \<and> sorted_wrt (\<lambda>a b. \<not> similarity_less a b) (results r))"
proof -
  have t: "truthy (JStr ''laptop'')" by simp
  from semantic_top3_sorted [OF t, of other_unchanged draws_up "sampleProducts draws_up"]
  obtain r where r: "search other_unchanged draws_up (sampleProducts draws_up) (JStr ''laptop'') (JStr ''semantic'') = Status200 r"
    and s: "sorted_wrt (\<lambda>a b. \<not> similarity_less a b) (results r)"
    by blast
  have e: "reply_results (search other_unchanged draws_up (sampleProducts draws_up) (JStr ''laptop'') (JStr ''semantic''))
      = results r"
    by (simp add: r)
  have i: "map hit_id (reply_results
      (search other_unchanged draws_up (sampleProducts draws_up) (JStr ''laptop'') (JStr ''semantic'')))
      = [''5'', ''4'', ''3'']"
    by (simp add: run_search draws_up_def)
  have v: "map similarity (reply_results
      (search other_unchanged draws_up (sampleProducts draws_up) (JStr ''laptop'') (JStr ''semantic'')))
      = [Some 40, Some 30, Some 20]"
    by (simp add: run_search draws_up_def)
  show ?thesis
  proof (intro conjI exI)
    show "truthy (JStr ''laptop'')" by (rule t)
    show "search other_unchanged draws_up (sampleProducts draws_up) (JStr ''laptop'') (JStr ''semantic'') = Status200 r"
      by (rule r)
    show "map hit_id (results r) = [''5'', ''4'', ''3'']"
      using i e by simp
    then show "length (results r) = 3"
      using length_map [of hit_id "results r"] by simp
    show "map similarity (results r) = [Some 40, Some 30, Some 20]"
      using v e by simp
    show "sorted_wrt (\<lambda>a b. \<not> similarity_less a b) (results r)" by (rule s)
  qed
qed

section \<open>Hybrid mode\<close>

lemma ranked_ids_distinct:
  assumes "distinct (map id_str cat)"
  shows "distinct (map (\<lambda>a. id_str (fst a)) (js_sort by_similarity (score_all rnd cat)))"
proof -
  let ?ranked = "js_sort by_similarity (score_all rnd cat)"
  have "mset (map (\<lambda>a. id_str (fst a)) ?ranked)
      = mset (map (\<lambda>a. id_str (fst a)) (score_all rnd cat))"
    by (simp add: mset_ranked)
  also have "map (\<lambda>a. id_str (fst a)) (score_all rnd cat) = map id_str (map fst (score_all rnd cat))"
    by simp
  also have "\<dots> = map id_str cat"
    by (simp only: map_fst_score_all)
  finally have "mset (map (\<lambda>a. id_str (fst a)) ?ranked) = mset (map id_str cat)" .
  with assms show ?thesis
    using mset_eq_imp_distinct_iff by blast
qed

lemma hit_id_scored: "map hit_id (map scored_hit xs) = map (\<lambda>a. id_str (fst a)) xs"
  by (induction xs) auto

lemma hit_id_plain: "map hit_id (map Plain xs) = map id_str xs"
  by (induction xs) auto

lemma filter_out_disjoint:
  "set S \<inter> set (map g (filter (\<lambda>p. g p \<notin> set S) R)) = {}"
  by auto

lemma hybrid_branch_distinct:
  assumes "distinct (map id_str cat)" and "hybrid_branch uni rnd cat q = Inr rs"
  shows "distinct (map hit_id rs)"
proof -
  let ?ranked = "js_sort by_similarity (score_all rnd cat)"
  from assms(2) obtain textResults where t: "filter_try (title_includes uni q) cat = Inr textResults"
    and rs: "rs = take 5 (map Plain textResults
        @ map scored_hit (filter (\<lambda>p. id_str (fst p) \<notin> set (map id_str textResults)) ?ranked))"
    by (auto simp: hybrid_branch_def Let_def split: sum.splits)
  from t have "textResults = filter (\<lambda>x. title_includes uni q x = Inr True) cat"
    by (rule filter_try_Inr)
  with assms(1) have dt: "distinct (map id_str textResults)"
    by (simp add: distinct_map_filter)
  have dv: "distinct (map (\<lambda>a. id_str (fst a))
      (filter (\<lambda>p. id_str (fst p) \<notin> set (map id_str textResults)) ?ranked))"
    using ranked_ids_distinct [OF assms(1)] by (rule distinct_map_filter)
  have "distinct (map hit_id (map Plain textResults
        @ map scored_hit (filter (\<lambda>p. id_str (fst p) \<notin> set (map id_str textResults)) ?ranked)))"
    unfolding map_append hit_id_scored hit_id_plain distinct_append
    using dt dv filter_out_disjoint [of "map id_str textResults" "\<lambda>a. id_str (fst a)" ?ranked]
    by blast
  then show ?thesis
    unfolding rs by (simp only: take_map [symmetric] distinct_take)
qed

text \<open>
  Claim C5. On every catalog the server can hold, for every query, the result list of a
  successful search in hybrid mode has no product id twice.
\<close>

theorem hybrid_no_duplicate_ids:
  assumes "reachable cat"
    and "search uni rnd cat q (JStr ''hybrid'') = Status200 r"
  shows "distinct (map hit_id (results r))"
proof -
  from assms(2) obtain rs where h: "hybrid_branch uni rnd cat q = Inr rs" and r: "results r = rs"
    by (auto simp: search_def search_try_def respond_def Let_def split: if_splits sum.splits)
  from reachable_distinct_ids [OF assms(1)] h have "distinct (map hit_id rs)"
    by (rule hybrid_branch_distinct)
  with r show ?thesis by simp
qed

lemma hybrid_search_a:
  "search other_unchanged draws_up (sampleProducts draws_up) (JStr ''a'') (JStr ''hybrid'')
     = Status200 \<lparr> query = JStr ''a'', searchType = JStr ''hybrid'',
         results = map Plain (tl (sampleProducts draws_up)) @ [Scored (hd (sampleProducts draws_up)) 0],
         count = 5 \<rparr>"
  by (simp add: run_search draws_up_def)

theorem hybrid_no_duplicate_ids_witness:
  "reachable (sampleProducts draws_up)
   \<and> search other_unchanged draws_up (sampleProducts draws_up) (JStr ''a'') (JStr ''hybrid'')
       = Status200 \<lparr> query = JStr ''a'', searchType = JStr ''hybrid'',
           results = map Plain (tl (sampleProducts draws_up)) @ [Scored (hd (sampleProducts draws_up)) 0],
           count = 5 \<rparr>
   \<and> distinct (map hit_id
        (map Plain (tl (sampleProducts draws_up)) @ [Scored (hd (sampleProducts draws_up)) 0]))"
  using hybrid_no_duplicate_ids [OF reachable.initial hybrid_search_a] hybrid_search_a
    reachable.initial [of draws_up]
  by simp

text \<open>What the hybrid branch computes on a catalog with text titles: the products whose
  title contains the query, in catalog order, then the ranking of the whole catalog
  without these, cut to five. The description is not read.\<close>

lemma hybrid_title_only:
  assumes "q \<noteq> []" and "\<forall>p \<in> set cat. is_string (title p)"
  shows "search uni rnd cat (JStr q) (JStr ''hybrid'')
     = respond (JStr q) (JStr ''hybrid'')
         (take 5
           (map Plain (filter (\<lambda>p. folded_contains uni (text_of (title p)) q) cat)
            @ map scored_hit
                (filter (\<lambda>a. id_str (fst a)
                          \<notin> set (map id_str
                                 (filter (\<lambda>p. folded_contains uni (text_of (title p)) q) cat)))
                   (js_sort by_similarity (score_all rnd cat)))))"
proof -
  have "title_includes uni (JStr q) p = Inr (folded_contains uni (text_of (title p)) q)"
    if "p \<in> set cat" for p
  proof -
    from that assms(2) obtain t where "title p = JStr t"
      by (metis is_string.elims(2))
    then show ?thesis
      by (simp add: title_includes_text)
  qed
  then have "filter_try (title_includes uni (JStr q)) cat
      = Inr (filter (\<lambda>p. folded_contains uni (text_of (title p)) q) cat)"
    by (rule filter_try_total)
  with assms(1) show ?thesis
    by (simp add: search_def search_try_def hybrid_branch_def)
qed

text \<open>
  Claim C6. A search in hybrid mode is to place all lexical matches, on title and
  description, first. The handler matches the title only: for the query ``shoes'' on the
  initial catalog, with the draws 0, 0.1, 0.2, 0.3, 0.4, the text search finds product 3
  (through its description), and the hybrid search returns it third, after products 5
  and 4, which do not match at all.
\<close>

theorem hybrid_shoes_not_first:
  "map hit_id (reply_results
      (search other_unchanged draws_up (sampleProducts draws_up) (JStr ''shoes'') (JStr ''text''))) = [''3'']
   \<and> map hit_id (reply_results
      (search other_unchanged draws_up (sampleProducts draws_up) (JStr ''shoes'') (JStr ''hybrid'')))
     = [''5'', ''4'', ''3'', ''2'', ''1'']"
  by (simp add: run_search draws_up_def)

section \<open>Mode dispatch, validation and the response\<close>



text \<open>
  Claim C10. Every successful search response has \<^verbatim>\<open>count\<close> equal to the length of
  \<^verbatim>\<open>results\<close>, for every query and every mode.
\<close>

theorem search_count:
  "search uni rnd cat q st = Status200 r \<Longrightarrow> count r = length (results r)"
  by (auto simp: search_def search_try_def respond_def Let_def split: if_splits sum.splits)

theorem search_count_witness:
  "search other_unchanged draws_up (sampleProducts draws_up) (JStr ''laptop'') (JStr ''semantic'')
     = Status200 \<lparr> query = JStr ''laptop'', searchType = JStr ''semantic'',
                   results = semantic_branch draws_up (sampleProducts draws_up),
                   count = length (semantic_branch draws_up (sampleProducts draws_up)) \<rparr>
   \<and> count \<lparr> query = JStr ''laptop'', searchType = JStr ''semantic'',
               results = semantic_branch draws_up (sampleProducts draws_up),
               count = length (semantic_branch draws_up (sampleProducts draws_up)) \<rparr> = 3
   \<and> length (semantic_branch draws_up (sampleProducts draws_up)) = 3"
proof -
  have t: "truthy (JStr ''laptop'')" by simp
  note r = semantic_search_reply [OF t, of other_unchanged draws_up "sampleProducts draws_up"]
  have l: "length (semantic_branch draws_up (sampleProducts draws_up)) = 3"
    by (simp add: semantic_branch_length sampleProducts_def)
  from search_count [OF r] r l show ?thesis
    by simp
qed

text \<open>
  Claim C3, as the code has it. The search fails with 400 when the query is empty or
  missing, in every mode, and for no other reason: the request has no query vector, and
  a semantic or hybrid search with a query is never a validation error.
\<close>

theorem search_validation:
  "search uni rnd cat (JStr []) st = Status400 ''Query is required''
   \<and> search uni rnd cat JUndefined st = Status400 ''Query is required''
   \<and> (status_code (search uni rnd cat q st) = 400) = (\<not> truthy q)"
  by (auto simp: search_def search_try_def respond_def Let_def split: if_splits sum.splits)

text \<open>The claim as stated fails: a semantic search with a query and no query vector
  answers 200.\<close>

theorem semantic_without_vector_counterexample:
  "status_code (search other_unchanged draws_up (sampleProducts draws_up) (JStr ''laptop'') (JStr ''semantic'')) = 200
   \<and> status_code (search other_unchanged draws_up (sampleProducts draws_up) (JStr ''laptop'') (JStr ''hybrid'')) = 200"
  by (simp add: run_search draws_up_def)

section \<open>Determinism\<close>

text \<open>
  Claim C2, as the code has it. The response of a search is a function of the query, the
  mode, the catalog and the values that \<^verbatim>\<open>Math.random()\<close> returns for the products:
  two invocations with the same arguments on the same catalog return the same response
  in text mode, and in the other modes when they get the same draws.
\<close>

theorem search_determined_by_draws:
  assumes "st = JStr ''text'' \<or> st = JUndefined \<or> (\<forall>i < length cat. rnd i = rnd' i)"
  shows "search uni rnd cat q st = search uni rnd' cat q st"
proof -
  consider (lexical) "st = JStr ''text'' \<or> st = JUndefined"
    | (agree) "\<forall>i < length cat. rnd i = rnd' i"
    using assms by blast
  then show ?thesis
  proof cases
    case lexical
    then show ?thesis
      by (auto simp: search_def search_try_def Let_def)
  next
    case agree
    then have e: "score_all rnd cat = score_all rnd' cat"
      by (rule score_all_cong)
    have s: "semantic_branch rnd cat = semantic_branch rnd' cat"
      unfolding semantic_branch_def e ..
    have h: "hybrid_branch uni rnd cat q = hybrid_branch uni rnd' cat q"
      unfolding hybrid_branch_def e ..
    show ?thesis
      unfolding search_def search_try_def s h ..
  qed
qed

theorem search_determined_by_draws_witness:
  "(JStr ''text'' = JStr ''text'' \<or> JStr ''text'' = JUndefined
      \<or> (\<forall>i < length (sampleProducts draws_up). draws_up i = draws_down i))
   \<and> search other_unchanged draws_up (sampleProducts draws_up) (JStr ''iphone'') (JStr ''text'')
       = search other_unchanged draws_down (sampleProducts draws_up) (JStr ''iphone'') (JStr ''text'')"
proof -
  have h: "JStr ''text'' = JStr ''text'' \<or> JStr ''text'' = JUndefined
      \<or> (\<forall>i < length (sampleProducts draws_up). draws_up i = draws_down i)"
    by simp
  from search_determined_by_draws [OF h, of other_unchanged "JStr ''iphone''"] h show ?thesis
    by blast
qed

text \<open>The claim as stated fails: the same semantic search on the same catalog returns
  products 5, 4, 3 when the draws are 0, 0.1, 0.2, 0.3, 0.4 and products 1, 2, 3 when
  they are 0.9, 0.8, 0.7, 0.6, 0.5.\<close>

theorem search_not_deterministic_counterexample:
  "map hit_id (reply_results
      (search other_unchanged draws_up (sampleProducts draws_up) (JStr ''laptop'') (JStr ''semantic'')))
     = [''5'', ''4'', ''3'']
   \<and> map hit_id (reply_results
      (search other_unchanged draws_down (sampleProducts draws_up) (JStr ''laptop'') (JStr ''semantic'')))
     = [''1'', ''2'', ''3'']
   \<and> reply_results (search other_unchanged draws_up (sampleProducts draws_up) (JStr ''laptop'') (JStr ''semantic''))
     \<noteq> reply_results (search other_unchanged draws_down (sampleProducts draws_up) (JStr ''laptop'') (JStr ''semantic''))"
proof -
  have u: "map hit_id (reply_results
      (search other_unchanged draws_up (sampleProducts draws_up) (JStr ''laptop'') (JStr ''semantic'')))
     = [''5'', ''4'', ''3'']"
    by (simp add: run_search draws_up_def)
  have d: "map hit_id (reply_results
      (search other_unchanged draws_down (sampleProducts draws_up) (JStr ''laptop'') (JStr ''semantic'')))
     = [''1'', ''2'', ''3'']"
    by (simp add: run_search draws_down_def)
  have "reply_results (search other_unchanged draws_up (sampleProducts draws_up) (JStr ''laptop'') (JStr ''semantic''))
     \<noteq> reply_results (search other_unchanged draws_down (sampleProducts draws_up) (JStr ''laptop'') (JStr ''semantic''))"
  proof
    assume "reply_results (search other_unchanged draws_up (sampleProducts draws_up) (JStr ''laptop'') (JStr ''semantic''))
     = reply_results (search other_unchanged draws_down (sampleProducts draws_up) (JStr ''laptop'') (JStr ''semantic''))"
    with u d have "[''5'', ''4'', ''3''] = [''1'', ''2'', ''3'']"
      by simp
    then show False by simp
  qed
  with u d show ?thesis by simp
qed

section \<open>Adding and listing products\<close>

text \<open>
  Claim C7. \<^verbatim>\<open>addProduct\<close> answers 400 and leaves the catalog as it is when the title
  or the description is empty or missing (or any other falsy value); when both are
  non-empty it answers 201 with the new product, which is appended to the catalog and is
  in the list that \<^verbatim>\<open>listProducts\<close> then returns.
\<close>

theorem addProduct_validation:
  "(\<not> truthy t \<or> \<not> truthy d \<longrightarrow>
      addProduct rnd cat t d c pr = (Status400 ''Title and description are required'', cat))
   \<and> (truthy t \<and> truthy d \<longrightarrow>
      (\<exists>p cat' listed. addProduct rnd cat t d c pr = (Status201 p, cat')
         \<and> cat' = cat @ [p] \<and> title p = t \<and> description p = d
         \<and> listProducts cat' = Status200 listed \<and> p \<in> set (products listed)))"
  by (simp add: addProduct_def listProducts_def Let_def)

theorem addProduct_validation_witness:
  "addProduct draws_up (sampleProducts draws_up) (JStr []) (JStr ''x'') JUndefined JUndefined
     = (Status400 ''Title and description are required'', sampleProducts draws_up)
   \<and> addProduct draws_up (sampleProducts draws_up) (JStr ''T'') JUndefined JUndefined JUndefined
     = (Status400 ''Title and description are required'', sampleProducts draws_up)
   \<and> (\<exists>p cat' listed.
        addProduct draws_up (sampleProducts draws_up) (JStr ''T'') (JStr ''D'') JUndefined JUndefined
          = (Status201 p, cat')
        \<and> cat' = sampleProducts draws_up @ [p] \<and> title p = JStr ''T'' \<and> description p = JStr ''D''
        \<and> listProducts cat' = Status200 listed \<and> p \<in> set (products listed))"
  using addProduct_validation [of "JStr []" "JStr ''x''" draws_up "sampleProducts draws_up" JUndefined JUndefined]
    addProduct_validation [of "JStr ''T''" JUndefined draws_up "sampleProducts draws_up" JUndefined JUndefined]
    addProduct_validation [of "JStr ''T''" "JStr ''D''" draws_up "sampleProducts draws_up" JUndefined JUndefined]
  by simp

section \<open>The status probe\<close>

text \<open>
  Claim C8. The status probe never throws: for every outcome of the external call the
  handler returns a status object, and when the transport fails (the fetch is rejected,
  or reading the body is) the object has \<^verbatim>\<open>connected = false\<close>. It is connected only
  when the engine answered 200 and the body could be read.
\<close>

theorem vespa_status_never_throws:
  "\<exists>r. vespa_status out = Inr (Status200 r)
       \<and> (transport_failure out \<longrightarrow> \<not> connected r)
       \<and> (connected r \<longleftrightarrow> (\<exists>s. out = FetchResolved 200 (Inr s)))"
  by (cases out rule: transport_failure.cases)
     (simp_all add: vespa_status_def vespa_status_try_def)

theorem vespa_status_never_throws_witness:
  "transport_failure (FetchRejected ''fetch failed'')
   \<and> transport_failure (FetchResolved 200 (Inl ''terminated''))
   \<and> (\<exists>r. vespa_status (FetchRejected ''fetch failed'') = Inr (Status200 r) \<and> \<not> connected r)
   \<and> (\<exists>r. vespa_status (FetchResolved 200 (Inl ''terminated'')) = Inr (Status200 r) \<and> \<not> connected r)"
  using vespa_status_never_throws [of "FetchRejected ''fetch failed''"]
    vespa_status_never_throws [of "FetchResolved 200 (Inl ''terminated'')"]
  by simp

end
